theory Spec2Isabelle
  imports Complex_Main "HOL-Library.Word"
begin

section \<open>Conventions of the embedding\<close>

text \<open>
  The development embeds the two source files of the appliance: \<^verbatim>\<open>reader.py\<close> (the
  accelerometer driver, the vector helpers and the \<^verbatim>\<open>AngleTracker\<close> class) and
  \<^verbatim>\<open>main.py\<close> (the DNS catch-all and the HTTP server).

  Python floats are modelled by the real numbers: every arithmetic operation is the exact
  one, so rounding, signed zeros, infinities and NaN are outside the model. The reals have
  one zero. Where the sine term and the cosine term of an angle are both zero, the float
  \<^verbatim>\<open>math.atan2\<close> goes by the sign of the zero cosine term (the result is \<open>0\<close> for
  \<open>+0.0\<close> and \<open>\<pi>\<close> for \<open>-0.0\<close>), and the model has the value for \<open>+0.0\<close>; the
  theorems below state no value of the angle for such a pair, except for a reading against
  its own normalisation, where the float cosine term adds products of two numbers of
  the same sign. The operations
  that raise in Python raise in the model: a float division by zero is
  \<^verbatim>\<open>ZeroDivisionError\<close>, \<^verbatim>\<open>math.sqrt\<close> of a negative number is \<^verbatim>\<open>ValueError\<close>, a failed
  bus transaction is \<^verbatim>\<open>OSError\<close>. A function that can raise returns \<open>py_error + 'a\<close>,
  with \<open>Inl\<close> for the exception.
\<close>

datatype py_error = OSError | ZeroDivisionError | ValueError | UnicodeError | EOFError

definition bind_err :: "py_error + 'a \<Rightarrow> ('a \<Rightarrow> py_error + 'b) \<Rightarrow> py_error + 'b" where
  "bind_err r f = (case r of Inl e \<Rightarrow> Inl e | Inr a \<Rightarrow> f a)"

definition py_div :: "real \<Rightarrow> real \<Rightarrow> py_error + real" where
  \<comment> \<open>Python's \<^verbatim>\<open>x / m\<close> on floats.\<close>
  "py_div x m = (if m = 0 then Inl ZeroDivisionError else Inr (x / m))"

definition py_sqrt :: "real \<Rightarrow> py_error + real" where
  \<comment> \<open>\<^verbatim>\<open>math.sqrt\<close>: a math domain error below zero.\<close>
  "py_sqrt x = (if x < 0 then Inl ValueError else Inr (sqrt x))"

definition atan2 :: "real \<Rightarrow> real \<Rightarrow> real" where
  \<comment> \<open>\<^verbatim>\<open>math.atan2(y, x)\<close>, the angle of the point \<open>(x, y)\<close>; it never raises. At
      \<open>y = 0\<close> and \<open>x = 0\<close> this is the value for zeros of positive sign:
      \<^verbatim>\<open>math.atan2(0.0, 0.0)\<close> is \<open>0\<close>, while \<^verbatim>\<open>math.atan2(0.0, -0.0)\<close> is \<open>\<pi>\<close>.\<close>
  "atan2 y x =
     (if 0 < x then arctan (y / x)
      else if x < 0 then (if 0 \<le> y then arctan (y / x) + pi else arctan (y / x) - pi)
      else if 0 < y then pi / 2
      else if y < 0 then - (pi / 2)
      else 0)"

definition degrees :: "real \<Rightarrow> real" where
  \<comment> \<open>\<^verbatim>\<open>math.degrees\<close>.\<close>
  "degrees r = r * 180 / pi"

section \<open>Vector helpers of \<^verbatim>\<open>reader.py\<close>\<close>

type_synonym vec3 = "real \<times> real \<times> real"

definition vec_norm :: "vec3 \<Rightarrow> py_error + vec3" where
  \<comment> \<open>\<^verbatim>\<open>_vec_norm\<close>\<close>
  "vec_norm v =
     (case v of (x, y, z) \<Rightarrow>
        bind_err (py_sqrt (x * x + y * y + z * z)) (\<lambda>m.
          if m = 0 then Inr (0, 0, 0)
          else bind_err (py_div x m) (\<lambda>xn.
               bind_err (py_div y m) (\<lambda>yn.
               bind_err (py_div z m) (\<lambda>zn. Inr (xn, yn, zn))))))"

definition vec_dot :: "vec3 \<Rightarrow> vec3 \<Rightarrow> real" where
  \<comment> \<open>\<^verbatim>\<open>_vec_dot\<close>\<close>
  "vec_dot a b =
     (case a of (a0, a1, a2) \<Rightarrow> case b of (b0, b1, b2) \<Rightarrow> a0 * b0 + a1 * b1 + a2 * b2)"

definition vec_cross :: "vec3 \<Rightarrow> vec3 \<Rightarrow> vec3" where
  \<comment> \<open>\<^verbatim>\<open>_vec_cross\<close>\<close>
  "vec_cross a b =
     (case a of (a0, a1, a2) \<Rightarrow> case b of (b0, b1, b2) \<Rightarrow>
        (a1 * b2 - a2 * b1, a2 * b0 - a0 * b2, a0 * b1 - a1 * b0))"

definition signed_angle_about_axis :: "vec3 \<Rightarrow> vec3 \<Rightarrow> vec3 \<Rightarrow> py_error + real" where
  \<comment> \<open>\<^verbatim>\<open>_signed_angle_about_axis\<close>; the last line unifies the endpoint.\<close>
  "signed_angle_about_axis v0 v1 axis_unit =
     bind_err (vec_norm v0) (\<lambda>v0u.
     bind_err (vec_norm v1) (\<lambda>v1u.
       let cross = vec_cross v0u v1u;
           s = vec_dot axis_unit cross;
           c = vec_dot v0u v1u;
           ang = degrees (atan2 s c)
       in Inr (if ang = 180 then - 180 else ang)))"


section \<open>The accelerometer on the bus\<close>

text \<open>
  The I2C bus is the only source of input of \<^verbatim>\<open>reader.py\<close>. The world records what the
  bus will answer to each transaction in turn (the \<open>n\<close>-th transaction either fails with
  \<^verbatim>\<open>OSError\<close> or, for a read of six bytes, delivers them), how many transactions were
  made, and the time spent in \<^verbatim>\<open>utime.sleep_ms\<close>.
\<close>

type_synonym byte = "8 word"

datatype bus_result = BusFail | BusData byte byte byte byte byte byte

record world =
  bus :: "nat \<Rightarrow> bus_result"
  txn :: nat
  slept_ms :: nat

definition sleep_ms :: "nat \<Rightarrow> world \<Rightarrow> world" where
  \<comment> \<open>\<^verbatim>\<open>utime.sleep_ms\<close>\<close>
  "sleep_ms d w = w\<lparr>slept_ms := slept_ms w + d\<rparr>"

definition writeto_mem :: "world \<Rightarrow> (py_error + unit) \<times> world" where
  \<comment> \<open>\<^verbatim>\<open>i2c.writeto_mem(addr, reg, data)\<close>: one transaction, which the bus may refuse.\<close>
  "writeto_mem w =
     (case bus w (txn w) of
        BusFail \<Rightarrow> (Inl OSError, w\<lparr>txn := Suc (txn w)\<rparr>)
      | BusData b0 b1 b2 b3 b4 b5 \<Rightarrow> (Inr (), w\<lparr>txn := Suc (txn w)\<rparr>))"

definition readfrom_mem6 ::
  "world \<Rightarrow> (py_error + byte \<times> byte \<times> byte \<times> byte \<times> byte \<times> byte) \<times> world" where
  \<comment> \<open>\<^verbatim>\<open>i2c.readfrom_mem(addr, 0x3B, 6)\<close>\<close>
  "readfrom_mem6 w =
     (case bus w (txn w) of
        BusFail \<Rightarrow> (Inl OSError, w\<lparr>txn := Suc (txn w)\<rparr>)
      | BusData b0 b1 b2 b3 b4 b5 \<Rightarrow> (Inr (b0, b1, b2, b3, b4, b5), w\<lparr>txn := Suc (txn w)\<rparr>))"

definition int16_be :: "byte \<Rightarrow> byte \<Rightarrow> int" where
  \<comment> \<open>one \<^verbatim>\<open>h\<close> of \<^verbatim>\<open>struct.unpack('>hhh', data)\<close>: big-endian, two's complement.\<close>
  "int16_be hi lo =
     (let u = unat hi * 256 + unat lo in if u < 32768 then int u else int u - 65536)"

definition init_device :: "world \<Rightarrow> (py_error + unit) \<times> world" where
  \<comment> \<open>\<^verbatim>\<open>MPU6050._init_device\<close>: two register writes; an \<^verbatim>\<open>OSError\<close> is swallowed.\<close>
  "init_device w =
     (case writeto_mem w of
        (Inl e, w1) \<Rightarrow> if e = OSError then (Inr (), w1) else (Inl e, w1)
      | (Inr u, w1) \<Rightarrow>
          (case writeto_mem (sleep_ms 100 w1) of
             (Inl e, w2) \<Rightarrow> if e = OSError then (Inr (), w2) else (Inl e, w2)
           | (Inr u', w2) \<Rightarrow> (Inr (), sleep_ms 10 w2)))"

definition get_accel_data :: "world \<Rightarrow> (py_error + vec3) \<times> world" where
  \<comment> \<open>\<^verbatim>\<open>MPU6050.get_accel_data\<close>\<close>
  "get_accel_data w =
     (case readfrom_mem6 w of
        (Inl e, w') \<Rightarrow> (Inl e, w')
      | (Inr (b0, b1, b2, b3, b4, b5), w') \<Rightarrow>
          (let ax = int16_be b0 b1; ay = int16_be b2 b3; az = int16_be b4 b5;
               scale = 16384
           in (Inr (real_of_int ax / scale, real_of_int ay / scale, real_of_int az / scale), w')))"

fun safe_read ::
  "(world \<Rightarrow> (py_error + 'a) \<times> world) \<Rightarrow> nat \<Rightarrow> nat \<Rightarrow> world \<Rightarrow> (py_error + 'a option) \<times> world"
where
  \<comment> \<open>\<^verbatim>\<open>_safe_read(read_fn, retries, delay_ms)\<close>: only \<^verbatim>\<open>OSError\<close> is caught.\<close>
  "safe_read read_fn 0 delay_ms w = (Inr None, w)"
| "safe_read read_fn (Suc n) delay_ms w =
     (case read_fn w of
        (Inr v, w') \<Rightarrow> (Inr (Some v), w')
      | (Inl e, w') \<Rightarrow>
          if e = OSError then safe_read read_fn n delay_ms (sleep_ms delay_ms w')
          else (Inl e, w'))"

section \<open>The class \<^verbatim>\<open>AngleTracker\<close>\<close>

record tracker =
  mpu_addr :: nat
  calibration_delay_ms :: nat
  axis :: vec3
  angle_mode :: string
  g_ref :: vec3
  last_delta :: real

definition upper_char :: "char \<Rightarrow> char" where
  "upper_char c =
     (let n = (of_char c :: nat) in if 97 \<le> n \<and> n \<le> 122 then char_of (n - 32) else c)"

definition upper :: "string \<Rightarrow> string" where
  \<comment> \<open>\<^verbatim>\<open>str.upper\<close> on ASCII text\<close>
  "upper s = map upper_char s"

definition axis_of_mode :: "string \<Rightarrow> py_error + vec3 \<times> string" where
  \<comment> \<open>the two attributes that \<^verbatim>\<open>_set_axis\<close> assigns: \<^verbatim>\<open>axis\<close> and \<^verbatim>\<open>angle_mode\<close>\<close>
  "axis_of_mode mode_arg =
     (let mode = upper (if mode_arg = [] then ''PITCH'' else mode_arg)
      in if mode = ''ROLL''
         then bind_err (vec_norm (1, 0, 0)) (\<lambda>a. Inr (a, ''ROLL''))
         else bind_err (vec_norm (0, 1, 0)) (\<lambda>a. Inr (a, ''PITCH'')))"

definition set_axis :: "string \<Rightarrow> tracker \<Rightarrow> py_error + tracker" where
  \<comment> \<open>\<^verbatim>\<open>_set_axis\<close> on a constructed tracker\<close>
  "set_axis mode_arg t =
     bind_err (axis_of_mode mode_arg) (\<lambda>(a, m). Inr (t\<lparr>axis := a, angle_mode := m\<rparr>))"

definition AngleTracker_init :: "string \<Rightarrow> nat \<Rightarrow> nat \<Rightarrow> world \<Rightarrow> (py_error + tracker) \<times> world" where
  \<comment> \<open>\<^verbatim>\<open>AngleTracker.__init__(i2c, angle_mode, mpu_addr, calibration_delay_ms)\<close>\<close>
  "AngleTracker_init mode_arg addr delay w =
     (case init_device w of
        (Inl e, w1) \<Rightarrow> (Inl e, w1)
      | (Inr u, w1) \<Rightarrow>
          (case axis_of_mode mode_arg of
             Inl e \<Rightarrow> (Inl e, w1)
           | Inr (a, m) \<Rightarrow>
               (Inr \<lparr>mpu_addr = addr, calibration_delay_ms = delay, axis = a, angle_mode = m,
                     g_ref = (0, 0, 1), last_delta = 0\<rparr>, w1)))"

definition recalibrate :: "tracker \<Rightarrow> world \<Rightarrow> (py_error + bool) \<times> tracker \<times> world" where
  "recalibrate t w =
     (case safe_read get_accel_data 3 5 (sleep_ms (calibration_delay_ms t) w) of
        (Inl e, w') \<Rightarrow> (Inl e, t, w')
      | (Inr None, w') \<Rightarrow> (Inr False, t, w')
      | (Inr (Some g), w') \<Rightarrow>
          (case vec_norm g of
             Inl e \<Rightarrow> (Inl e, t, w')
           | Inr u \<Rightarrow> (Inr True, t\<lparr>g_ref := u, last_delta := 0\<rparr>, w')))"

definition get_delta :: "tracker \<Rightarrow> world \<Rightarrow> (py_error + real option) \<times> tracker \<times> world" where
  "get_delta t w =
     (case safe_read get_accel_data 3 5 w of
        (Inl e, w') \<Rightarrow> (Inl e, t, w')
      | (Inr None, w') \<Rightarrow> (Inr None, t, w')
      | (Inr (Some g_now), w') \<Rightarrow>
          (case signed_angle_about_axis (g_ref t) g_now (axis t) of
             Inl e \<Rightarrow> (Inl e, t, w')
           | Inr d \<Rightarrow> (Inr (Some d), t\<lparr>last_delta := d\<rparr>, w')))"

definition get_last_delta :: "tracker \<Rightarrow> real" where
  "get_last_delta t = last_delta t"

definition set_angle_mode :: "string \<Rightarrow> tracker \<Rightarrow> py_error + tracker" where
  "set_angle_mode mode_arg t = set_axis mode_arg t"

section \<open>Start-up of \<^verbatim>\<open>main.py\<close>\<close>

definition ANGLE_MODE :: string where
  "ANGLE_MODE = ''PITCH''"

definition AP_IP :: string where
  "AP_IP = ''192.168.4.1''"

definition startup :: "world \<Rightarrow> (py_error + bool \<times> tracker) \<times> world" where
  \<comment> \<open>the module-level construction of \<^verbatim>\<open>tracker\<close> and its first calibration; the
      boolean is what \<^verbatim>\<open>tracker.recalibrate()\<close> returned (the two branches only print).\<close>
  "startup w =
     (case AngleTracker_init ANGLE_MODE 104 1500 w of
        (Inl e, w1) \<Rightarrow> (Inl e, w1)
      | (Inr t, w1) \<Rightarrow>
          (case recalibrate t w1 of
             (Inl e, t', w2) \<Rightarrow> (Inl e, w2)
           | (Inr ok, t', w2) \<Rightarrow> (Inr (ok, t'), w2)))"

section \<open>The DNS catch-all\<close>

text \<open>
  A datagram is the byte string that \<^verbatim>\<open>s.recvfrom(512)\<close> returned. One turn of the
  \<^verbatim>\<open>while True\<close> loop of \<^verbatim>\<open>dns_catch_all\<close> is a function of what \<^verbatim>\<open>recvfrom\<close> did
  (it raised \<^verbatim>\<open>OSError\<close>, as a non-blocking socket with nothing to read does, or it
  returned data and the peer's address) and of whether \<^verbatim>\<open>sendto\<close> will raise. Its
  result is the list of calls it made on the socket and the scheduler.
\<close>

fun split_on :: "char \<Rightarrow> string \<Rightarrow> string list" where
  \<comment> \<open>\<^verbatim>\<open>str.split(sep)\<close> for a separator of one character\<close>
  "split_on c [] = [[]]"
| "split_on c (x # xs) =
     (if x = c then [] # split_on c xs
      else (case split_on c xs of [] \<Rightarrow> [[x]] | p # ps \<Rightarrow> (x # p) # ps))"

definition digit_val :: "char \<Rightarrow> nat option" where
  "digit_val c =
     (let n = (of_char c :: nat) in if 48 \<le> n \<and> n \<le> 57 then Some (n - 48) else None)"

fun digits_val :: "nat \<Rightarrow> string \<Rightarrow> nat option" where
  "digits_val acc [] = Some acc"
| "digits_val acc (c # cs) =
     (case digit_val c of None \<Rightarrow> None | Some d \<Rightarrow> digits_val (acc * 10 + d) cs)"

definition py_int :: "string \<Rightarrow> nat option" where
  \<comment> \<open>\<^verbatim>\<open>int(x)\<close> where \<open>x\<close> is a non-empty run of decimal digits. \<open>None\<close> stands for every
      other string: those \<^verbatim>\<open>int\<close> rejects and the signed or padded forms it accepts, none
      of which occurs in the configured address.\<close>
  "py_int x = (if x = [] then None else digits_val 0 x)"

fun those_bytes :: "string list \<Rightarrow> byte list option" where
  "those_bytes [] = Some []"
| "those_bytes (x # xs) =
     (case py_int x of
        None \<Rightarrow> None
      | Some n \<Rightarrow> (case those_bytes xs of None \<Rightarrow> None | Some bs \<Rightarrow> Some (of_nat (n mod 256) # bs)))"

definition ip_bytes :: "string \<Rightarrow> byte list option" where
  \<comment> \<open>\<^verbatim>\<open>bytes(int(x) & 0xFF for x in ip.split("."))\<close>\<close>
  "ip_bytes ip = those_bytes (split_on (CHR ''.'') ip)"

definition slice :: "nat \<Rightarrow> nat \<Rightarrow> 'a list \<Rightarrow> 'a list" where
  \<comment> \<open>\<^verbatim>\<open>xs[a:b]\<close> for \<open>0 \<le> a \<le> b\<close>; a slice never raises\<close>
  "slice a b xs = take (b - a) (drop a xs)"

definition dns_packet :: "byte list \<Rightarrow> byte list \<Rightarrow> byte list" where
  \<comment> \<open>the argument of \<^verbatim>\<open>s.sendto\<close>: \<^verbatim>\<open>header + question + answer\<close>\<close>
  "dns_packet ipb data =
     (let tid = slice 0 2 data;
          flags = [0x81, 0x80];
          qdcount = slice 4 6 data;
          ancount = [0x00, 0x01];
          nscount = [0x00, 0x00];
          arcount = [0x00, 0x00];
          header = tid @ flags @ qdcount @ ancount @ nscount @ arcount;
          question = drop 12 data;
          answer = [0xC0, 0x0C] @ [0x00, 0x01] @ [0x00, 0x01] @ [0x00, 0x00, 0x00, 0x3C]
                   @ [0x00, 0x04] @ ipb
      in header @ question @ answer)"

datatype 'c recv_result = RecvOSError | Received "byte list" 'c

datatype 'c dns_call = SendTo "byte list" 'c | SleepMs nat

definition dns_turn :: "byte list \<Rightarrow> 'c recv_result \<Rightarrow> bool \<Rightarrow> 'c dns_call list" where
  \<comment> \<open>one turn of the loop; \<open>send_raises\<close> tells whether \<^verbatim>\<open>sendto\<close> raises \<^verbatim>\<open>OSError\<close>\<close>
  "dns_turn ipb rcv send_raises =
     (case rcv of
        RecvOSError \<Rightarrow> [SleepMs 2]
      | Received data cli \<Rightarrow>
          if data = [] \<or> length data < 12 then [SleepMs 1]
          else if send_raises then [SendTo (dns_packet ipb data) cli, SleepMs 2]
          else [SendTo (dns_packet ipb data) cli])"

definition be_nat :: "byte list \<Rightarrow> nat" where
  \<comment> \<open>the unsigned number a field of the DNS wire format holds, most significant byte first\<close>
  "be_nat bs = foldl (\<lambda>a b. a * 256 + unat b) 0 bs"

section \<open>The HTTP server\<close>

text \<open>
  A connection is the byte string that the client sends, and whether the client then
  closes its side (\<open>eof\<close>) or keeps the connection open. The reader hands the bytes out
  line by line. A read that needs bytes which never come returns at the end of the
  stream if the client closes, and never returns if the connection stays open: a function
  that reads returns an option, and \<open>None\<close> says that the call never returns. The writer
  is the list of the calls made on it, in order: the strings passed to \<^verbatim>\<open>awrite\<close> and the
  calls of \<^verbatim>\<open>aclose\<close>; a write is taken to complete. A \<^verbatim>\<open>str\<close> is a string with one
  character per position.

  What the interpreter's library decides is a parameter of the model, so that the
  theorems hold for every library: whether \<^verbatim>\<open>bytes.decode()\<close> raises and what it returns,
  whether \<^verbatim>\<open>int(s)\<close> raises and what it returns, the rendering \<^verbatim>\<open>f"{d:+.2f}"\<close> of an
  angle, and the page that \<^verbatim>\<open>load_index_html()\<close> returns.
\<close>

record pylib =
  decode :: "string \<Rightarrow> string option"
  int_of :: "string \<Rightarrow> int option"
  format_angle :: "real \<Rightarrow> string"
  index_page :: string


definition crlf :: string where
  "crlf = [CHR 0x0D, CHR 0x0A]"

fun split_lines :: "string \<Rightarrow> string \<Rightarrow> string list" where
  \<comment> \<open>the lines of a stream: each line with its line feed, and a last line without one
      when the stream ends inside a line\<close>
  "split_lines cur [] = (if cur = [] then [] else [cur])"
| "split_lines cur (c # cs) =
     (if c = CHR 0x0A then (cur @ [c]) # split_lines [] cs else split_lines (cur @ [c]) cs)"

definition ends_line :: "string \<Rightarrow> bool" where
  "ends_line l = (l \<noteq> [] \<and> last l = CHR 0x0A)"


definition is_space :: "char \<Rightarrow> bool" where
  "is_space c = (c \<in> set [CHR 0x20, CHR 0x09, CHR 0x0A, CHR 0x0B, CHR 0x0C, CHR 0x0D])"



definition strip :: "string \<Rightarrow> string" where
  \<comment> \<open>\<^verbatim>\<open>str.strip()\<close>\<close>
  "strip s = rev (dropWhile is_space (rev (dropWhile is_space s)))"

definition lower_char :: "char \<Rightarrow> char" where
  "lower_char c =
     (let n = (of_char c :: nat) in if 65 \<le> n \<and> n \<le> 90 then char_of (n + 32) else c)"

definition lower :: "string \<Rightarrow> string" where
  \<comment> \<open>\<^verbatim>\<open>str.lower()\<close> on ASCII letters\<close>
  "lower s = map lower_char s"

definition startswith :: "string \<Rightarrow> string \<Rightarrow> bool" where
  "startswith s p = (take (length p) s = p)"









fun read_headers ::
  "pylib \<Rightarrow> bool \<Rightarrow> int \<Rightarrow> string \<Rightarrow> string list
     \<Rightarrow> (py_error + int \<times> string \<times> string list) option" where
  \<comment> \<open>the \<^verbatim>\<open>while True\<close> loop over the header lines, on the lines still to be read; it
      returns \<^verbatim>\<open>content_length\<close>, \<^verbatim>\<open>host_hdr\<close> and the lines left. Each turn starts with
      a \<^verbatim>\<open>readline\<close>. \<^verbatim>\<open>h.decode()\<close> is not inside a \<^verbatim>\<open>try\<close> of its own; the failure
      of \<^verbatim>\<open>int\<close> or of the index is caught.\<close>
  "read_headers lib eof content_length host_hdr [] =
     (if eof then Some (Inr (content_length, host_hdr, [])) else None)"
| "read_headers lib eof content_length host_hdr (h # rest) =
     (if \<not> (ends_line h \<or> eof) then None
      else if h = [] \<or> h = crlf then Some (Inr (content_length, host_hdr, rest))
      else case decode lib h of
             None \<Rightarrow> Some (Inl UnicodeError)
           | Some d \<Rightarrow>
               (let hl = strip d;
                    content_length' =
                      (if startswith (lower hl) ''content-length:''
                       then (case (if CHR '':'' \<in> set hl
                                   then int_of lib (strip (drop 1 (dropWhile (\<lambda>c. c \<noteq> CHR '':'') hl)))
                                   else None) of
                               None \<Rightarrow> 0
                             | Some n \<Rightarrow> n)
                       else content_length);
                    host_hdr' = (if startswith (lower hl) ''host:'' then strip (drop 5 hl)
                                 else host_hdr)
                in read_headers lib eof content_length' host_hdr' rest))"




section \<open>Sample worlds\<close>

text \<open>
  Concrete buses and a concrete tracker, on which the theorems below are instantiated: a
  bus that refuses every transaction, one whose sensor lies level (reading \<open>(0, 0, 1)\<close>),
  one whose sensor is turned a quarter (reading \<open>(1, 0, 0)\<close>), and one that refuses the
  first two transactions and then delivers the quarter-turn reading.
\<close>

definition world_of :: "(nat \<Rightarrow> bus_result) \<Rightarrow> world" where
  "world_of b = \<lparr>bus = b, txn = 0, slept_ms = 0\<rparr>"

definition dead_bus :: "nat \<Rightarrow> bus_result" where
  "dead_bus n = BusFail"


definition tilted_bus :: "nat \<Rightarrow> bus_result" where
  "tilted_bus n = BusData 0x40 0 0 0 0 0"

definition flaky_bus :: "nat \<Rightarrow> bus_result" where
  "flaky_bus n = (if n < 2 then BusFail else BusData 0x40 0 0 0 0 0)"

definition sample_tracker :: tracker where
  "sample_tracker =
     \<lparr>mpu_addr = 104, calibration_delay_ms = 1500, axis = (0, 1, 0), angle_mode = ''PITCH'',
      g_ref = (0, 0, 1), last_delta = 12\<rparr>"







section \<open>Properties of the vector helpers\<close>


lemma vec_norm_eq:
  "vec_norm (x, y, z) =
     Inr (if sqrt (x * x + y * y + z * z) = 0 then (0, 0, 0)
          else (x / sqrt (x * x + y * y + z * z), y / sqrt (x * x + y * y + z * z),
                z / sqrt (x * x + y * y + z * z)))"
proof -
  have "\<not> x * x + y * y + z * z < 0"
    by (simp add: not_less add_nonneg_nonneg)
  then show ?thesis
    by (simp add: vec_norm_def py_sqrt_def py_div_def bind_err_def)
qed

lemma vec_norm_total: "\<exists>u. vec_norm v = Inr u"
  by (cases v) (simp add: vec_norm_eq del: real_sqrt_eq_zero_cancel_iff)

lemma atan2_lower: "- pi < atan2 y x"
proof -
  have a: "- (pi / 2) < arctan (y / x)" and b: "arctan (y / x) < pi / 2"
    by (rule arctan_lbound, rule arctan_ubound)
  have c: "x < 0 \<Longrightarrow> y < 0 \<Longrightarrow> 0 < arctan (y / x)"
    by (simp add: divide_neg_neg)
  have "0 < pi" by simp
  then show ?thesis using a b c
    by (auto simp add: atan2_def)
qed

lemma atan2_upper: "atan2 y x \<le> pi"
proof -
  have a: "- (pi / 2) < arctan (y / x)" and b: "arctan (y / x) < pi / 2"
    by (rule arctan_lbound, rule arctan_ubound)
  have c: "x < 0 \<Longrightarrow> 0 \<le> y \<Longrightarrow> arctan (y / x) \<le> 0"
    by (simp add: divide_nonneg_neg)
  have "0 < pi" by simp
  then show ?thesis using a b c
    by (auto simp add: atan2_def)
qed

lemma atan2_eq_pi: "atan2 y x = pi \<longleftrightarrow> y = 0 \<and> x < 0"
proof -
  have a: "- (pi / 2) < arctan (y / x)" and b: "arctan (y / x) < pi / 2"
    by (rule arctan_lbound, rule arctan_ubound)
  have c: "x < 0 \<Longrightarrow> 0 < y \<Longrightarrow> arctan (y / x) < 0"
    by (simp add: divide_pos_neg)
  have p: "0 < pi" by simp
  show ?thesis
  proof (cases "y = 0 \<and> x < 0")
    case True
    then show ?thesis by (simp add: atan2_def)
  next
    case False
    have "atan2 y x \<noteq> pi"
      using a b c p False by (auto simp add: atan2_def)
    with False show ?thesis by simp
  qed
qed

lemma atan2_uminus: "\<not> (y = 0 \<and> x < 0) \<Longrightarrow> atan2 (- y) x = - atan2 y x"
  by (auto simp add: atan2_def arctan_minus)

lemma degrees_eq_180: "degrees r = 180 \<longleftrightarrow> r = pi"
  by (simp add: degrees_def field_simps)

lemma degrees_bounds: "- pi < r \<Longrightarrow> r \<le> pi \<Longrightarrow> - 180 < degrees r \<and> degrees r \<le> 180"
  by (simp add: degrees_def field_simps)

lemma degrees_uminus: "degrees (- r) = - degrees r"
  by (simp add: degrees_def)


lemma signed_angle_eq:
  "vec_norm v0 = Inr v0u \<Longrightarrow> vec_norm v1 = Inr v1u \<Longrightarrow>
   signed_angle_about_axis v0 v1 ax =
     Inr (if atan2 (vec_dot ax (vec_cross v0u v1u)) (vec_dot v0u v1u) = pi then - 180
          else degrees (atan2 (vec_dot ax (vec_cross v0u v1u)) (vec_dot v0u v1u)))"
  by (simp add: signed_angle_about_axis_def bind_err_def Let_def degrees_eq_180)

lemma vec_dot_cross_swap: "vec_dot ax (vec_cross b a) = - vec_dot ax (vec_cross a b)"
  by (cases ax, cases a, cases b) (simp add: vec_dot_def vec_cross_def algebra_simps)

lemma vec_dot_commute: "vec_dot a b = vec_dot b a"
  by (cases a, cases b) (simp add: vec_dot_def algebra_simps)

lemma signed_angle_total: "\<exists>r. signed_angle_about_axis v0 v1 ax = Inr r"
proof -
  obtain v0u where n0: "vec_norm v0 = Inr v0u" using vec_norm_total by blast
  obtain v1u where n1: "vec_norm v1 = Inr v1u" using vec_norm_total by blast
  show ?thesis using signed_angle_eq [OF n0 n1, of ax] by blast
qed

lemma vec_norm_zero: "vec_norm (0, 0, 0) = Inr (0, 0, 0)"
  by (simp add: vec_norm_eq)

lemmas angle_eval_defs =
  signed_angle_about_axis_def vec_norm_def py_sqrt_def py_div_def bind_err_def
  vec_cross_def vec_dot_def atan2_def degrees_def

lemma signed_angle_down: "signed_angle_about_axis (0, 0, 1) (0, 0, - 1) (0, 1, 0) = Inr (- 180)"
  by (simp add: angle_eval_defs)

lemma signed_angle_up: "signed_angle_about_axis (0, 0, - 1) (0, 0, 1) (0, 1, 0) = Inr (- 180)"
  by (simp add: angle_eval_defs)

lemma signed_angle_quarter: "signed_angle_about_axis (0, 0, 1) (1, 0, 0) (0, 1, 0) = Inr 90"
  by (simp add: angle_eval_defs)

lemma signed_angle_quarter_back: "signed_angle_about_axis (1, 0, 0) (0, 0, 1) (0, 1, 0) = Inr (- 90)"
  by (simp add: angle_eval_defs)

section \<open>The signed angle\<close>

text \<open>
  Claim C1, as the code has it. For every pair of vectors and every axis the signed-angle
  computation returns a number \<open>r\<close> with \<open>-180 \<le> r < 180\<close>: the arctangent lies in
  \<open>(-180, 180]\<close> and its value \<open>180\<close> is replaced by \<open>-180\<close>, so \<open>-180\<close> is returned and
  \<open>180\<close> never is.
\<close>

theorem signed_angle_range:
  "\<exists>r. signed_angle_about_axis v0 v1 ax = Inr r \<and> - 180 \<le> r \<and> r < 180"
proof -
  obtain v0u where n0: "vec_norm v0 = Inr v0u" using vec_norm_total by blast
  obtain v1u where n1: "vec_norm v1 = Inr v1u" using vec_norm_total by blast
  define t where "t = atan2 (vec_dot ax (vec_cross v0u v1u)) (vec_dot v0u v1u)"
  have eq: "signed_angle_about_axis v0 v1 ax = Inr (if t = pi then - 180 else degrees t)"
    unfolding t_def by (rule signed_angle_eq [OF n0 n1])
  have b: "- 180 < degrees t \<and> degrees t \<le> 180"
    unfolding t_def by (rule degrees_bounds [OF atan2_lower atan2_upper])
  have ne: "t \<noteq> pi \<Longrightarrow> degrees t \<noteq> 180"
    by (simp add: degrees_eq_180)
  show ?thesis
  proof (cases "t = pi")
    case True
    with eq show ?thesis by simp
  next
    case False
    with eq b ne show ?thesis by auto
  qed
qed

text \<open>
  Claim C1 as stated fails: with the reference pointing up, the reading pointing down and
  the pitch axis, the result is \<open>-180\<close>, which is outside \<open>(-180, 180]\<close>.
\<close>

theorem signed_angle_range_counterexample:
  "signed_angle_about_axis (0, 0, 1) (0, 0, - 1) (0, 1, 0) = Inr (- 180)
   \<and> \<not> (- 180 < (- 180 :: real) \<and> (- 180 :: real) \<le> 180)"
  by (simp add: signed_angle_down)

text \<open>
  Claim C6, as the code has it. Swapping the two vectors negates the signed angle when
  the angle is not the endpoint \<open>-180\<close>; when it is the endpoint, the swapped order
  returns \<open>-180\<close> as well. This holds for all vectors and axes, unit or not.
\<close>

theorem signed_angle_antisymmetric:
  assumes "signed_angle_about_axis a b ax = Inr r"
  shows "signed_angle_about_axis b a ax = Inr (if r = - 180 then - 180 else - r)"
proof -
  obtain au where na: "vec_norm a = Inr au" using vec_norm_total by blast
  obtain bu where nb: "vec_norm b = Inr bu" using vec_norm_total by blast
  define s where "s = vec_dot ax (vec_cross au bu)"
  define c where "c = vec_dot au bu"
  have ab: "signed_angle_about_axis a b ax =
              Inr (if atan2 s c = pi then - 180 else degrees (atan2 s c))"
    unfolding s_def c_def by (rule signed_angle_eq [OF na nb])
  have ba: "signed_angle_about_axis b a ax =
              Inr (if atan2 (- s) c = pi then - 180 else degrees (atan2 (- s) c))"
    using signed_angle_eq [OF nb na, of ax]
    by (simp add: s_def c_def vec_dot_cross_swap [of ax au bu] vec_dot_commute [of bu au])
  have r: "r = (if atan2 s c = pi then - 180 else degrees (atan2 s c))"
    using assms ab by simp
  have lo: "- 180 < degrees (atan2 s c)"
    using degrees_bounds [OF atan2_lower atan2_upper] by blast
  show ?thesis
  proof (cases "s = 0 \<and> c < 0")
    case True
    then have "atan2 s c = pi" "atan2 (- s) c = pi" by (simp_all add: atan2_eq_pi)
    with r ba show ?thesis by simp
  next
    case False
    then have n1: "atan2 s c \<noteq> pi" and n2: "atan2 (- s) c \<noteq> pi"
      by (simp_all add: atan2_eq_pi)
    have "atan2 (- s) c = - atan2 s c" using False by (rule atan2_uminus)
    with n1 n2 r ba lo show ?thesis by (simp add: degrees_uminus)
  qed
qed

theorem signed_angle_antisymmetric_witness:
  "signed_angle_about_axis (0, 0, 1) (1, 0, 0) (0, 1, 0) = Inr 90
   \<and> signed_angle_about_axis (1, 0, 0) (0, 0, 1) (0, 1, 0) = Inr (- 90)
   \<and> signed_angle_about_axis (0, 0, 1) (0, 0, - 1) (0, 1, 0) = Inr (- 180)
   \<and> signed_angle_about_axis (0, 0, - 1) (0, 0, 1) (0, 1, 0) = Inr (- 180)"
  using signed_angle_antisymmetric [OF signed_angle_quarter]
    signed_angle_antisymmetric [OF signed_angle_down] signed_angle_quarter signed_angle_down
  by simp

text \<open>
  Claim C6 as stated fails for the unit vectors up and down about the unit pitch axis:
  both orders give \<open>-180\<close>, and \<open>-180\<close> is not the negation of \<open>-180\<close>.
\<close>

theorem signed_angle_antisymmetric_counterexample:
  "signed_angle_about_axis (0, 0, 1) (0, 0, - 1) (0, 1, 0) = Inr (- 180)
   \<and> signed_angle_about_axis (0, 0, - 1) (0, 0, 1) (0, 1, 0) = Inr (- 180)
   \<and> (- 180 :: real) \<noteq> - (- 180)"
  by (simp add: signed_angle_down signed_angle_up)

text \<open>
  Claim C9. Normalisation never raises: it returns a vector for every input, and a vector
  of zero magnitude is mapped to the zero vector. The signed-angle computation, which
  normalises both of its vectors, returns an angle on all inputs, degenerate ones
  included.
\<close>

theorem vec_norm_no_division_by_zero:
  "(\<exists>u. vec_norm v = Inr u)
   \<and> (sqrt (x * x + y * y + z * z) = 0 \<longrightarrow> vec_norm (x, y, z) = Inr (0, 0, 0))
   \<and> (\<exists>r. signed_angle_about_axis v0 v1 ax = Inr r)"
proof -
  have "sqrt (x * x + y * y + z * z) = 0 \<longrightarrow> vec_norm (x, y, z) = Inr (0, 0, 0)"
    by (simp only: vec_norm_eq if_True) simp
  then show ?thesis
    using vec_norm_total [of v] signed_angle_total [of v0 v1 ax]
    by blast
qed

theorem vec_norm_no_division_by_zero_witness:
  "sqrt (0 * 0 + 0 * 0 + 0 * 0) = (0 :: real) \<and> vec_norm (0, 0, 0) = Inr (0, 0, 0)"
  using vec_norm_no_division_by_zero [of "(0, 0, 0)" 0 0 0 "(0, 0, 0)" "(0, 0, 1)" "(0, 1, 0)"]
  by simp

section \<open>Properties of the retrying read\<close>

lemma get_accel_data_fail:
  "bus w (txn w) = BusFail \<Longrightarrow> get_accel_data w = (Inl OSError, w\<lparr>txn := Suc (txn w)\<rparr>)"
  by (simp add: get_accel_data_def readfrom_mem6_def)

lemma get_accel_data_ok:
  "bus w (txn w) = BusData b0 b1 b2 b3 b4 b5 \<Longrightarrow>
   get_accel_data w =
     (Inr (real_of_int (int16_be b0 b1) / 16384, real_of_int (int16_be b2 b3) / 16384,
           real_of_int (int16_be b4 b5) / 16384), w\<lparr>txn := Suc (txn w)\<rparr>)"
  by (simp add: get_accel_data_def readfrom_mem6_def Let_def)

lemma get_accel_data_cases:
  "(bus w (txn w) = BusFail \<and> get_accel_data w = (Inl OSError, w\<lparr>txn := Suc (txn w)\<rparr>))
   \<or> (bus w (txn w) \<noteq> BusFail \<and> (\<exists>g. get_accel_data w = (Inr g, w\<lparr>txn := Suc (txn w)\<rparr>)))"
proof (cases "bus w (txn w)")
  case BusFail
  then show ?thesis by (simp add: get_accel_data_fail)
next
  case (BusData b0 b1 b2 b3 b4 b5)
  have "bus w (txn w) \<noteq> BusFail" using BusData by simp
  with get_accel_data_ok [OF BusData] show ?thesis by blast
qed

lemma safe_read_accel_None:
  "(fst (safe_read get_accel_data n d w) = Inr None) = (\<forall>i<n. bus w (txn w + i) = BusFail)"
proof (induction n arbitrary: w)
  case 0
  show ?case by simp
next
  case (Suc n)
  show ?case
  proof (cases "bus w (txn w) = BusFail")
    case True
    have "fst (safe_read get_accel_data (Suc n) d w)
            = fst (safe_read get_accel_data n d (sleep_ms d (w\<lparr>txn := Suc (txn w)\<rparr>)))"
      by (simp add: get_accel_data_fail [OF True])
    also have "(\<dots> = Inr None) = (\<forall>i<n. bus w (Suc (txn w) + i) = BusFail)"
      by (simp add: Suc.IH sleep_ms_def)
    also have "\<dots> = (\<forall>i<Suc n. bus w (txn w + i) = BusFail)"
      using True by (auto simp add: less_Suc_eq_0_disj)
    finally show ?thesis .
  next
    case False
    then obtain g where "get_accel_data w = (Inr g, w\<lparr>txn := Suc (txn w)\<rparr>)"
      using get_accel_data_cases [of w] by blast
    then have "fst (safe_read get_accel_data (Suc n) d w) = Inr (Some g)" by simp
    moreover have "\<not> (\<forall>i<Suc n. bus w (txn w + i) = BusFail)"
      using False by (metis add.right_neutral zero_less_Suc)
    ultimately show ?thesis by simp
  qed
qed

lemma safe_read_accel_no_raise:
  "fst (safe_read get_accel_data n d w) \<noteq> Inl e"
proof (induction n arbitrary: w)
  case 0
  show ?case by simp
next
  case (Suc n)
  show ?case
    using get_accel_data_cases [of w] Suc.IH
    by (auto simp add: sleep_ms_def)
qed

lemma safe_read_accel_all_fail:
  "(\<forall>i<n. bus w (txn w + i) = BusFail) \<Longrightarrow>
   safe_read get_accel_data n d w = (Inr None, w\<lparr>txn := txn w + n, slept_ms := slept_ms w + n * d\<rparr>)"
proof (induction n arbitrary: w)
  case 0
  show ?case by simp
next
  case (Suc n)
  have f: "bus w (txn w) = BusFail" using Suc.prems by (metis add.right_neutral zero_less_Suc)
  let ?w = "sleep_ms d (w\<lparr>txn := Suc (txn w)\<rparr>)"
  have "\<forall>i<n. bus ?w (txn ?w + i) = BusFail"
    using Suc.prems by (auto simp add: sleep_ms_def)
  from Suc.IH [OF this] show ?case
    by (simp add: get_accel_data_fail [OF f] sleep_ms_def)
qed

lemma safe_read_accel_result:
  "fst (safe_read get_accel_data n d w) = Inr None
   \<or> (\<exists>g. fst (safe_read get_accel_data n d w) = Inr (Some g))"
proof (cases "fst (safe_read get_accel_data n d w)")
  case (Inl e)
  then show ?thesis using safe_read_accel_no_raise by blast
next
  case (Inr r)
  then show ?thesis by (cases r) auto
qed

section \<open>Properties of the tracker\<close>

lemma get_delta_None_iff:
  "(fst (get_delta t w) = Inr None) = (\<forall>i<3. bus w (txn w + i) = BusFail)"
proof -
  have "(fst (get_delta t w) = Inr None) = (fst (safe_read get_accel_data 3 5 w) = Inr None)"
  proof (cases "safe_read get_accel_data 3 5 w")
    case (Pair r w')
    show ?thesis
    proof (cases r)
      case (Inl e)
      with Pair show ?thesis by (simp add: get_delta_def)
    next
      case (Inr v)
      show ?thesis
      proof (cases v)
        case None
        with Pair Inr show ?thesis by (simp add: get_delta_def)
      next
        case (Some g)
        obtain d where "signed_angle_about_axis (g_ref t) g (axis t) = Inr d"
          using signed_angle_total by blast
        with Pair Inr Some show ?thesis by (simp add: get_delta_def)
      qed
    qed
  qed
  then show ?thesis by (simp only: safe_read_accel_None)
qed

lemma get_delta_all_fail:
  assumes "\<forall>i<3. bus w (txn w + i) = BusFail"
  shows "get_delta t w = (Inr None, t, w\<lparr>txn := txn w + 3, slept_ms := slept_ms w + 15\<rparr>)"
  using safe_read_accel_all_fail [OF assms, of 5] by (simp add: get_delta_def)

lemma get_delta_no_raise: "fst (get_delta t w) \<noteq> Inl e"
proof (cases "safe_read get_accel_data 3 5 w")
  case (Pair r w')
  have nr: "r \<noteq> Inl e'" for e'
    using safe_read_accel_no_raise [of 3 5 w e'] Pair by simp
  show ?thesis
  proof (cases r)
    case (Inl e')
    with nr [of e'] show ?thesis by simp
  next
    case (Inr v)
    show ?thesis
    proof (cases v)
      case None
      with Pair Inr show ?thesis by (simp add: get_delta_def)
    next
      case (Some g)
      obtain d where "signed_angle_about_axis (g_ref t) g (axis t) = Inr d"
        using signed_angle_total by blast
      with Pair Inr Some show ?thesis by (simp add: get_delta_def)
    qed
  qed
qed

lemma get_delta_read:
  assumes "safe_read get_accel_data 3 5 w = (Inr (Some g), w')"
    and "signed_angle_about_axis (g_ref t) g (axis t) = Inr d"
  shows "get_delta t w = (Inr (Some d), t\<lparr>last_delta := d\<rparr>, w')"
  using assms by (simp add: get_delta_def)

lemma recalibrate_all_fail:
  assumes "\<forall>i<3. bus w (txn w + i) = BusFail"
  shows "recalibrate t w =
           (Inr False, t, w\<lparr>txn := txn w + 3,
                             slept_ms := slept_ms w + calibration_delay_ms t + 15\<rparr>)"
proof -
  let ?w = "sleep_ms (calibration_delay_ms t) w"
  have "\<forall>i<3. bus ?w (txn ?w + i) = BusFail" using assms by (simp add: sleep_ms_def)
  from safe_read_accel_all_fail [OF this, of 5] show ?thesis
    by (simp add: recalibrate_def sleep_ms_def)
qed

lemma recalibrate_read:
  assumes "safe_read get_accel_data 3 5 (sleep_ms (calibration_delay_ms t) w) = (Inr (Some g), w')"
    and "vec_norm g = Inr u"
  shows "recalibrate t w = (Inr True, t\<lparr>g_ref := u, last_delta := 0\<rparr>, w')"
  using assms by (simp add: recalibrate_def)

lemma recalibrate_False_iff:
  "(fst (recalibrate t w) = Inr False) = (\<forall>i<3. bus w (txn w + i) = BusFail)"
proof -
  let ?w = "sleep_ms (calibration_delay_ms t) w"
  have "(fst (recalibrate t w) = Inr False) = (fst (safe_read get_accel_data 3 5 ?w) = Inr None)"
  proof (cases "safe_read get_accel_data 3 5 ?w")
    case (Pair r w')
    show ?thesis
    proof (cases r)
      case (Inl e)
      with Pair show ?thesis by (simp add: recalibrate_def)
    next
      case (Inr v)
      show ?thesis
      proof (cases v)
        case None
        with Pair Inr show ?thesis by (simp add: recalibrate_def)
      next
        case (Some g)
        obtain u where "vec_norm g = Inr u" using vec_norm_total by blast
        with Pair Inr Some show ?thesis by (simp add: recalibrate_def)
      qed
    qed
  qed
  also have "\<dots> = (\<forall>i<3. bus ?w (txn ?w + i) = BusFail)"
    by (simp only: safe_read_accel_None)
  finally show ?thesis by (simp add: sleep_ms_def)
qed

lemma recalibrate_no_raise: "fst (recalibrate t w) \<noteq> Inl e"
proof (cases "safe_read get_accel_data 3 5 (sleep_ms (calibration_delay_ms t) w)")
  case (Pair r w')
  have nr: "r \<noteq> Inl e'" for e'
    using safe_read_accel_no_raise [of 3 5 "sleep_ms (calibration_delay_ms t) w" e'] Pair by simp
  show ?thesis
  proof (cases r)
    case (Inl e')
    with nr [of e'] show ?thesis by simp
  next
    case (Inr v)
    show ?thesis
    proof (cases v)
      case None
      with Pair Inr show ?thesis by (simp add: recalibrate_def)
    next
      case (Some g)
      obtain u where "vec_norm g = Inr u" using vec_norm_total by blast
      with Pair Inr Some show ?thesis by (simp add: recalibrate_def)
    qed
  qed
qed

lemma vec_norm_scale: "\<exists>k. 0 \<le> k \<and> vec_norm (x, y, z) = Inr (k * x, k * y, k * z)"
proof (cases "sqrt (x * x + y * y + z * z) = 0")
  case True
  then have "vec_norm (x, y, z) = Inr (0 * x, 0 * y, 0 * z)"
    by (simp only: vec_norm_eq if_True) simp
  then show ?thesis by (intro exI [of _ 0]) simp
next
  case False
  define m where "m = sqrt (x * x + y * y + z * z)"
  have "0 \<le> m" unfolding m_def by (simp add: add_nonneg_nonneg)
  have "vec_norm (x, y, z) = Inr (x / m, y / m, z / m)"
    using False unfolding m_def by (simp only: vec_norm_eq if_False)
  then have "vec_norm (x, y, z) = Inr (1 / m * x, 1 / m * y, 1 / m * z)" by simp
  moreover have "0 \<le> 1 / m" using \<open>0 \<le> m\<close> by simp
  ultimately show ?thesis by blast
qed

lemma signed_angle_same_direction:
  assumes "vec_norm g = Inr u"
  shows "signed_angle_about_axis u g ax = Inr 0"
proof -
  obtain x y z where g: "g = (x, y, z)" by (cases g)
  obtain k where k: "0 \<le> k" and u: "u = (k * x, k * y, k * z)"
    using vec_norm_scale [of x y z] assms g by auto
  obtain j where j: "0 \<le> j" and nu: "vec_norm u = Inr (j * (k * x), j * (k * y), j * (k * z))"
    using vec_norm_scale [of "k * x" "k * y" "k * z"] u by auto
  have ng: "vec_norm g = Inr (k * x, k * y, k * z)" using assms u by simp
  have s: "vec_dot ax (vec_cross (j * (k * x), j * (k * y), j * (k * z)) (k * x, k * y, k * z)) = 0"
    by (cases ax) (simp add: vec_dot_def vec_cross_def)
  have "vec_dot (j * (k * x), j * (k * y), j * (k * z)) (k * x, k * y, k * z)
          = j * ((k * x) * (k * x) + (k * y) * (k * y) + (k * z) * (k * z))"
    by (simp add: vec_dot_def algebra_simps)
  moreover have "0 \<le> j * ((k * x) * (k * x) + (k * y) * (k * y) + (k * z) * (k * z))"
  proof (rule mult_nonneg_nonneg [OF j])
    show "0 \<le> (k * x) * (k * x) + (k * y) * (k * y) + (k * z) * (k * z)"
      by (intro add_nonneg_nonneg zero_le_square)
  qed
  ultimately have c: "0 \<le> vec_dot (j * (k * x), j * (k * y), j * (k * z)) (k * x, k * y, k * z)"
    by simp
  have a0: "atan2 0 c = 0" if "0 \<le> c" for c using that by (simp add: atan2_def)
  have pn: "(0::real) \<noteq> pi" using pi_gt_zero by simp
  show ?thesis
    using signed_angle_eq [OF nu ng, of ax] pn
    by (simp only: s a0 [OF c] if_False degrees_def) simp
qed

lemma writeto_mem_result:
  "fst (writeto_mem w) = Inl OSError \<or> fst (writeto_mem w) = Inr ()"
  by (cases "bus w (txn w)") (simp_all add: writeto_mem_def)

lemma init_device_no_raise: "fst (init_device w) = Inr ()"
proof (cases "writeto_mem w")
  case (Pair r w1)
  show ?thesis
  proof (cases r)
    case (Inl e)
    then have "e = OSError" using writeto_mem_result [of w] Pair by simp
    with Pair Inl show ?thesis by (simp add: init_device_def)
  next
    case (Inr u)
    show ?thesis
    proof (cases "writeto_mem (sleep_ms 100 w1)")
      case p2: (Pair r2 w2)
      show ?thesis
      proof (cases r2)
        case (Inl e)
        then have "e = OSError" using writeto_mem_result [of "sleep_ms 100 w1"] p2 by simp
        with Pair Inr p2 Inl show ?thesis by (simp add: init_device_def)
      next
        case i2: (Inr u2)
        with Pair Inr p2 show ?thesis by (simp add: init_device_def)
      qed
    qed
  qed
qed

lemma axis_of_mode_eq:
  "axis_of_mode m =
     Inr (if upper (if m = [] then ''PITCH'' else m) = ''ROLL'' then ((1, 0, 0), ''ROLL'')
          else ((0, 1, 0), ''PITCH''))"
  by (simp add: axis_of_mode_def Let_def vec_norm_def py_sqrt_def py_div_def bind_err_def)

lemma AngleTracker_init_eq:
  "\<exists>a m. axis_of_mode mode = Inr (a, m) \<and>
     AngleTracker_init mode addr delay w =
       (Inr \<lparr>mpu_addr = addr, calibration_delay_ms = delay, axis = a, angle_mode = m,
              g_ref = (0, 0, 1), last_delta = 0\<rparr>, snd (init_device w))"
proof -
  obtain w1 where i: "init_device w = (Inr (), w1)"
    using init_device_no_raise [of w] by (cases "init_device w") simp
  obtain a m where am: "axis_of_mode mode = Inr (a, m)"
    using axis_of_mode_eq [of mode] by (cases "upper (if mode = [] then ''PITCH'' else mode) = ''ROLL''") simp_all
  have "AngleTracker_init mode addr delay w =
       (Inr \<lparr>mpu_addr = addr, calibration_delay_ms = delay, axis = a, angle_mode = m,
              g_ref = (0, 0, 1), last_delta = 0\<rparr>, snd (init_device w))"
    by (simp add: AngleTracker_init_def i am)
  with am show ?thesis by blast
qed

lemma upper_PITCH: "upper ''PITCH'' = ''PITCH''"
  by (simp add: upper_def upper_char_def)

lemma axis_of_mode_ANGLE_MODE: "axis_of_mode ANGLE_MODE = Inr ((0, 1, 0), ''PITCH'')"
  by (simp add: axis_of_mode_eq ANGLE_MODE_def upper_PITCH)

lemma startup_uncalibrated:
  assumes "fst (startup w) = Inr (False, t)"
  shows "t = \<lparr>mpu_addr = 104, calibration_delay_ms = 1500, axis = (0, 1, 0),
              angle_mode = ''PITCH'', g_ref = (0, 0, 1), last_delta = 0\<rparr>"
proof -
  let ?t0 = "\<lparr>mpu_addr = 104, calibration_delay_ms = 1500, axis = (0, 1, 0),
              angle_mode = ''PITCH'', g_ref = (0, 0, 1), last_delta = 0\<rparr>"
  have i: "AngleTracker_init ANGLE_MODE 104 1500 w = (Inr ?t0, snd (init_device w))"
    using AngleTracker_init_eq [of ANGLE_MODE 104 1500 w] by (simp add: axis_of_mode_ANGLE_MODE)
  obtain r t' w2 where rc: "recalibrate ?t0 (snd (init_device w)) = (r, t', w2)"
    by (cases "recalibrate ?t0 (snd (init_device w))") auto
  have nr: "r \<noteq> Inl e" for e
    using recalibrate_no_raise [of ?t0 "snd (init_device w)" e] rc by simp
  then obtain ok where ok: "r = Inr ok" by (cases r) auto
  have "startup w = (Inr (ok, t'), w2)" using i rc ok by (simp add: startup_def)
  with assms have f: "ok = False" and tt: "t' = t" by simp_all
  have "fst (recalibrate ?t0 (snd (init_device w))) = Inr False" using rc ok f by simp
  then have "\<forall>i<3. bus (snd (init_device w)) (txn (snd (init_device w)) + i) = BusFail"
    by (simp only: recalibrate_False_iff)
  from recalibrate_all_fail [OF this, of ?t0] rc have "t' = ?t0" by simp
  with tt show ?thesis by simp
qed

subsection \<open>Evaluation on the sample worlds\<close>

lemmas read_eval_defs =
  get_accel_data_def readfrom_mem6_def int16_be_def sleep_ms_def numeral_3_eq_3 Let_def

lemma dead_bus_fails:
  "\<forall>i<3. bus (world_of dead_bus) (txn (world_of dead_bus) + i) = BusFail"
  by (simp add: world_of_def dead_bus_def)

lemma flaky_bus_recovers:
  "\<not> (\<forall>i<3. bus (world_of flaky_bus) (txn (world_of flaky_bus) + i) = BusFail)"
  by (simp add: world_of_def flaky_bus_def) (rule exI [of _ 2], simp)

lemma flaky_read_1:
  "safe_read get_accel_data 3 5 (sleep_ms (calibration_delay_ms sample_tracker) (world_of flaky_bus))
     = (Inr (Some (1, 0, 0)), \<lparr>bus = flaky_bus, txn = 3, slept_ms = 1510\<rparr>)"
  by (simp add: read_eval_defs world_of_def flaky_bus_def sample_tracker_def)

lemma flaky_read_2:
  "safe_read get_accel_data 3 5 \<lparr>bus = flaky_bus, txn = 3, slept_ms = 1510\<rparr>
     = (Inr (Some (1, 0, 0)), \<lparr>bus = flaky_bus, txn = 4, slept_ms = 1510\<rparr>)"
  by (simp add: read_eval_defs flaky_bus_def)

lemma dead_startup:
  "fst (startup (world_of dead_bus)) =
     Inr (False, \<lparr>mpu_addr = 104, calibration_delay_ms = 1500, axis = (0, 1, 0),
                  angle_mode = ''PITCH'', g_ref = (0, 0, 1), last_delta = 0\<rparr>)"
  by (simp add: startup_def AngleTracker_init_def init_device_def writeto_mem_def
      axis_of_mode_ANGLE_MODE recalibrate_def read_eval_defs world_of_def dead_bus_def)

lemma tilted_read:
  "safe_read get_accel_data 3 5 (world_of tilted_bus)
     = (Inr (Some (1, 0, 0)), \<lparr>bus = tilted_bus, txn = 1, slept_ms = 0\<rparr>)"
  by (simp add: read_eval_defs world_of_def tilted_bus_def)

section \<open>Failed reads\<close>

text \<open>
  Claim C3. \<^verbatim>\<open>get_delta\<close> returns \<^verbatim>\<open>None\<close> exactly when the three reads that
  \<^verbatim>\<open>_safe_read\<close> attempts all fail; in that case the tracker, \<^verbatim>\<open>_last_delta\<close> included,
  is the one it was called on. It never raises.
\<close>

theorem get_delta_unavailable:
  "(fst (get_delta t w) = Inr None) = (\<forall>i<3. bus w (txn w + i) = BusFail)
   \<and> ((\<forall>i<3. bus w (txn w + i) = BusFail) \<longrightarrow> fst (snd (get_delta t w)) = t)
   \<and> fst (get_delta t w) \<noteq> Inl e"
  using get_delta_None_iff [of t w] get_delta_all_fail [of w t] get_delta_no_raise [of t w e]
  by simp

theorem get_delta_unavailable_witness:
  "bus (world_of dead_bus) (txn (world_of dead_bus) + 0) = BusFail
   \<and> bus (world_of dead_bus) (txn (world_of dead_bus) + 1) = BusFail
   \<and> bus (world_of dead_bus) (txn (world_of dead_bus) + 2) = BusFail
   \<and> fst (get_delta sample_tracker (world_of dead_bus)) = Inr None
   \<and> fst (snd (get_delta sample_tracker (world_of dead_bus))) = sample_tracker
   \<and> bus (world_of flaky_bus) (txn (world_of flaky_bus) + 2) \<noteq> BusFail
   \<and> fst (get_delta sample_tracker (world_of flaky_bus)) \<noteq> Inr None"
proof -
  have "bus (world_of dead_bus) (txn (world_of dead_bus) + 0) = BusFail
   \<and> bus (world_of dead_bus) (txn (world_of dead_bus) + 1) = BusFail
   \<and> bus (world_of dead_bus) (txn (world_of dead_bus) + 2) = BusFail
   \<and> bus (world_of flaky_bus) (txn (world_of flaky_bus) + 2) \<noteq> BusFail"
    by (simp add: world_of_def dead_bus_def flaky_bus_def)
  then show ?thesis
    using dead_bus_fails flaky_bus_recovers
      get_delta_unavailable [of sample_tracker "world_of dead_bus"]
      get_delta_unavailable [of sample_tracker "world_of flaky_bus"]
    by simp
qed

text \<open>
  Claim C4. \<^verbatim>\<open>recalibrate\<close> returns \<^verbatim>\<open>False\<close> exactly when the three reads that
  \<^verbatim>\<open>_safe_read\<close> attempts all fail; in that case the whole tracker (reference, last
  delta, axis and mode) is the one it was called on. It never raises.
\<close>

theorem recalibrate_failure_keeps_state:
  "(fst (recalibrate t w) = Inr False) = (\<forall>i<3. bus w (txn w + i) = BusFail)
   \<and> ((\<forall>i<3. bus w (txn w + i) = BusFail) \<longrightarrow> fst (snd (recalibrate t w)) = t)
   \<and> fst (recalibrate t w) \<noteq> Inl e"
  using recalibrate_False_iff [of t w] recalibrate_all_fail [of w t] recalibrate_no_raise [of t w e]
  by simp

theorem recalibrate_failure_keeps_state_witness:
  "bus (world_of dead_bus) (txn (world_of dead_bus) + 0) = BusFail
   \<and> bus (world_of dead_bus) (txn (world_of dead_bus) + 1) = BusFail
   \<and> bus (world_of dead_bus) (txn (world_of dead_bus) + 2) = BusFail
   \<and> fst (recalibrate sample_tracker (world_of dead_bus)) = Inr False
   \<and> fst (snd (recalibrate sample_tracker (world_of dead_bus))) = sample_tracker"
proof -
  have "bus (world_of dead_bus) (txn (world_of dead_bus) + 0) = BusFail
   \<and> bus (world_of dead_bus) (txn (world_of dead_bus) + 1) = BusFail
   \<and> bus (world_of dead_bus) (txn (world_of dead_bus) + 2) = BusFail"
    by (simp add: world_of_def dead_bus_def)
  then show ?thesis
    using dead_bus_fails recalibrate_failure_keeps_state [of sample_tracker "world_of dead_bus"]
    by simp
qed

section \<open>Calibration\<close>

text \<open>
  Claim C5. When the read of \<^verbatim>\<open>recalibrate\<close> delivers the reading \<open>r\<close> and the read of the
  \<^verbatim>\<open>get_delta\<close> that follows delivers \<open>r\<close> again, \<^verbatim>\<open>recalibrate\<close> returns \<^verbatim>\<open>True\<close> and
  \<^verbatim>\<open>get_delta\<close> returns the angle \<open>0\<close>. Over the reals the angle is exactly \<open>0\<close>, also
  for the reading \<open>(0, 0, 0)\<close>.
\<close>

theorem recalibrate_then_get_delta_zero:
  assumes "safe_read get_accel_data 3 5 (sleep_ms (calibration_delay_ms t) w) = (Inr (Some r), w1)"
    and "safe_read get_accel_data 3 5 w1 = (Inr (Some r), w2)"
  shows "\<exists>t1. recalibrate t w = (Inr True, t1, w1) \<and> get_delta t1 w1 = (Inr (Some 0), t1, w2)"
proof -
  obtain u where u: "vec_norm r = Inr u" using vec_norm_total by blast
  let ?t1 = "t\<lparr>g_ref := u, last_delta := 0\<rparr>"
  have rc: "recalibrate t w = (Inr True, ?t1, w1)"
    by (rule recalibrate_read [OF assms(1) u])
  have "signed_angle_about_axis (g_ref ?t1) r (axis ?t1) = Inr 0"
    using signed_angle_same_direction [OF u] by simp
  from get_delta_read [OF assms(2) this] have "get_delta ?t1 w1 = (Inr (Some 0), ?t1, w2)"
    by simp
  with rc show ?thesis by blast
qed

theorem recalibrate_then_get_delta_zero_witness:
  "safe_read get_accel_data 3 5
       (sleep_ms (calibration_delay_ms sample_tracker) (world_of flaky_bus))
     = (Inr (Some (1, 0, 0)), \<lparr>bus = flaky_bus, txn = 3, slept_ms = 1510\<rparr>)
   \<and> safe_read get_accel_data 3 5 \<lparr>bus = flaky_bus, txn = 3, slept_ms = 1510\<rparr>
     = (Inr (Some (1, 0, 0)), \<lparr>bus = flaky_bus, txn = 4, slept_ms = 1510\<rparr>)
   \<and> fst (recalibrate sample_tracker (world_of flaky_bus)) = Inr True
   \<and> fst (get_delta (fst (snd (recalibrate sample_tracker (world_of flaky_bus))))
                     \<lparr>bus = flaky_bus, txn = 3, slept_ms = 1510\<rparr>) = Inr (Some 0)"
  using recalibrate_then_get_delta_zero [OF flaky_read_1 flaky_read_2] flaky_read_1 flaky_read_2
  by auto

text \<open>
  Claim C10. The constructor never raises and leaves the reference at \<open>(0, 0, 1)\<close> and
  the last delta at \<open>0\<close>. When the calibration at start-up returns \<^verbatim>\<open>False\<close>, the tracker
  still has that reference and that last delta, \<^verbatim>\<open>get_last_delta\<close> returns \<open>0\<close>, and a
  \<^verbatim>\<open>get_delta\<close> whose read delivers \<open>g\<close> returns the signed angle from \<open>(0, 0, 1)\<close> to
  \<open>g\<close> about the tracker's axis.
\<close>

theorem default_reference_after_init:
  "(\<exists>t0. fst (AngleTracker_init mode addr delay w) = Inr t0
          \<and> g_ref t0 = (0, 0, 1) \<and> last_delta t0 = 0)
   \<and> (fst (startup w) = Inr (False, t) \<longrightarrow>
        g_ref t = (0, 0, 1) \<and> last_delta t = 0 \<and> get_last_delta t = 0
        \<and> (safe_read get_accel_data 3 5 w' = (Inr (Some g), w'') \<longrightarrow>
             (\<exists>d. get_delta t w' = (Inr (Some d), t\<lparr>last_delta := d\<rparr>, w'')
                   \<and> signed_angle_about_axis (0, 0, 1) g (axis t) = Inr d)))"
proof -
  have a: "\<exists>t0. fst (AngleTracker_init mode addr delay w) = Inr t0
             \<and> g_ref t0 = (0, 0, 1) \<and> last_delta t0 = 0"
    using AngleTracker_init_eq [of mode addr delay w] by auto
  have b: "g_ref t = (0, 0, 1) \<and> last_delta t = 0 \<and> get_last_delta t = 0
        \<and> (safe_read get_accel_data 3 5 w' = (Inr (Some g), w'') \<longrightarrow>
             (\<exists>d. get_delta t w' = (Inr (Some d), t\<lparr>last_delta := d\<rparr>, w'')
                   \<and> signed_angle_about_axis (0, 0, 1) g (axis t) = Inr d))"
    if s: "fst (startup w) = Inr (False, t)"
  proof -
    have t: "g_ref t = (0, 0, 1)" "last_delta t = 0"
      using startup_uncalibrated [OF s] by simp_all
    obtain d where d: "signed_angle_about_axis (g_ref t) g (axis t) = Inr d"
      using signed_angle_total by blast
    have "get_delta t w' = (Inr (Some d), t\<lparr>last_delta := d\<rparr>, w'')"
      if "safe_read get_accel_data 3 5 w' = (Inr (Some g), w'')"
      by (rule get_delta_read [OF that d])
    with d t show ?thesis by (auto simp add: get_last_delta_def)
  qed
  from a b show ?thesis by blast
qed

theorem default_reference_after_init_witness:
  "fst (startup (world_of dead_bus)) =
     Inr (False, \<lparr>mpu_addr = 104, calibration_delay_ms = 1500, axis = (0, 1, 0),
                  angle_mode = ''PITCH'', g_ref = (0, 0, 1), last_delta = 0\<rparr>)
   \<and> safe_read get_accel_data 3 5 (world_of tilted_bus)
       = (Inr (Some (1, 0, 0)), \<lparr>bus = tilted_bus, txn = 1, slept_ms = 0\<rparr>)
   \<and> fst (get_delta \<lparr>mpu_addr = 104, calibration_delay_ms = 1500, axis = (0, 1, 0),
                  angle_mode = ''PITCH'', g_ref = (0, 0, 1), last_delta = 0\<rparr> (world_of tilted_bus))
       = Inr (Some 90)"
  using default_reference_after_init [of ANGLE_MODE 104 1500 "world_of dead_bus"
      "\<lparr>mpu_addr = 104, calibration_delay_ms = 1500, axis = (0, 1, 0),
                  angle_mode = ''PITCH'', g_ref = (0, 0, 1), last_delta = 0\<rparr>"
      "world_of tilted_bus" "(1, 0, 0)" "\<lparr>bus = tilted_bus, txn = 1, slept_ms = 0\<rparr>"]
    dead_startup tilted_read signed_angle_quarter
  by auto

section \<open>Properties of the DNS catch-all\<close>

lemma ip_bytes_AP_IP: "ip_bytes AP_IP = Some [192, 168, 4, 1]"
  by (simp add: ip_bytes_def AP_IP_def py_int_def digit_val_def)

lemma dns_packet_eq:
  "dns_packet ipb data =
     take 2 data @ [0x81, 0x80] @ take 2 (drop 4 data) @ [0, 1, 0, 0, 0, 0] @ drop 12 data
     @ [0xC0, 0x0C, 0, 1, 0, 1, 0, 0, 0, 0x3C, 0, 4] @ ipb"
  by (simp add: dns_packet_def slice_def)

lemma dns_body:
  assumes "12 \<le> length data"
  shows "drop 12 (dns_packet ipb data)
           = drop 12 data @ [0xC0, 0x0C, 0, 1, 0, 1, 0, 0, 0, 0x3C, 0, 4] @ ipb"
  using assms by (simp add: dns_packet_eq min_def)

lemma dns_tail:
  assumes "12 \<le> length data"
  shows "drop (length data) (dns_packet ipb data)
           = [0xC0, 0x0C, 0, 1, 0, 1, 0, 0, 0, 0x3C, 0, 4] @ ipb"
proof -
  have "drop (length data) (dns_packet ipb data)
          = drop (length data - 12) (drop 12 (dns_packet ipb data))"
    using assms by simp
  also have "\<dots> = [0xC0, 0x0C, 0, 1, 0, 1, 0, 0, 0, 0x3C, 0, 4] @ ipb"
    using assms by (simp add: dns_body [OF assms])
  finally show ?thesis .
qed

lemma dns_question:
  assumes "12 \<le> length data"
  shows "slice 12 (length data) (dns_packet ipb data) = drop 12 data"
  using assms by (simp add: slice_def dns_body [OF assms])

lemma dns_header_fields:
  assumes "12 \<le> length data"
  shows "slice 0 2 (dns_packet ipb data) = slice 0 2 data"
    and "slice 2 4 (dns_packet ipb data) = [0x81, 0x80]"
    and "slice 4 6 (dns_packet ipb data) = slice 4 6 data"
    and "slice 6 8 (dns_packet ipb data) = [0, 1]"
    and "slice 8 10 (dns_packet ipb data) = [0, 0]"
    and "slice 10 12 (dns_packet ipb data) = [0, 0]"
  using assms by (simp_all add: dns_packet_eq slice_def min_def)

lemma be_nat_fields:
  "be_nat [0x81, 0x80] = 33152" "be_nat [0xC0, 0x0C] = 49164"
  "be_nat [0x00, 0x00, 0x00, 0x3C] = 60" "be_nat [0x00, 0x04] = 4"
  "be_nat [0, 1] = 1" "be_nat [0, 0] = 0"
  by (simp_all add: be_nat_def)

text \<open>
  Claim C2. For a datagram of at least 12 bytes the turn calls \<^verbatim>\<open>sendto\<close> once, with
  the peer's address and a packet laid out as follows: bytes 0 and 1 are those of the
  query; bytes 2 and 3 are \<open>0x8180\<close> (response bit set, opcode 0, response code 0);
  bytes 4 and 5 are the query's question count; the answer count is 1, the authority and
  additional counts are 0; then come the query's bytes from offset 12 on, unchanged; then
  one answer record and nothing else: the name is a compression pointer (top two bits set)
  to offset 12, type 1 (A), class 1 (IN), TTL 60, data length 4, and the address bytes,
  which for the configured address are 192, 168, 4, 1.
\<close>

theorem dns_reply_layout:
  assumes "12 \<le> length data"
  shows "dns_turn ipb (Received data cli) False = [SendTo (dns_packet ipb data) cli]
    \<and> dns_turn ipb (Received data cli) True = [SendTo (dns_packet ipb data) cli, SleepMs 2]
    \<and> slice 0 2 (dns_packet ipb data) = slice 0 2 data
    \<and> slice 2 4 (dns_packet ipb data) = [0x81, 0x80]
    \<and> be_nat [0x81, 0x80] div 32768 = 1
    \<and> be_nat [0x81, 0x80] div 2048 mod 16 = 0
    \<and> be_nat [0x81, 0x80] mod 16 = 0
    \<and> slice 4 6 (dns_packet ipb data) = slice 4 6 data
    \<and> be_nat (slice 6 8 (dns_packet ipb data)) = 1
    \<and> be_nat (slice 8 10 (dns_packet ipb data)) = 0
    \<and> be_nat (slice 10 12 (dns_packet ipb data)) = 0
    \<and> slice 12 (length data) (dns_packet ipb data) = drop 12 data
    \<and> drop (length data) (dns_packet ipb data)
        = [0xC0, 0x0C] @ [0x00, 0x01] @ [0x00, 0x01] @ [0x00, 0x00, 0x00, 0x3C] @ [0x00, 0x04] @ ipb
    \<and> be_nat [0xC0, 0x0C] div 16384 = 3
    \<and> be_nat [0xC0, 0x0C] mod 16384 = 12
    \<and> be_nat [0x00, 0x01] = 1
    \<and> be_nat [0x00, 0x00, 0x00, 0x3C] = 60
    \<and> be_nat [0x00, 0x04] = 4
    \<and> ip_bytes AP_IP = Some [192, 168, 4, 1]"
proof -
  have t: "dns_turn ipb (Received data cli) False = [SendTo (dns_packet ipb data) cli]"
    "dns_turn ipb (Received data cli) True = [SendTo (dns_packet ipb data) cli, SleepMs 2]"
    using assms by (auto simp add: dns_turn_def)
  show ?thesis
    using t dns_header_fields [OF assms, of ipb] dns_question [OF assms, of ipb]
      dns_tail [OF assms, of ipb] ip_bytes_AP_IP
    by (simp add: be_nat_fields)
qed

theorem dns_reply_layout_witness:
  "(12 :: nat) \<le> length [0x12, 0x34, 1, 0, 0, 1, 0, 0, 0, 0, 0, 0, 1, 97, 0, 0, 1, 0, 1 :: byte]
   \<and> dns_turn [192, 168, 4, 1] (Received [0x12, 0x34, 1, 0, 0, 1, 0, 0, 0, 0, 0, 0, 1, 97, 0, 0, 1, 0, 1] (7 :: nat)) False
       = [SendTo ([0x12, 0x34, 0x81, 0x80, 0, 1, 0, 1, 0, 0, 0, 0, 1, 97, 0, 0, 1, 0, 1,
                   0xC0, 0x0C, 0, 1, 0, 1, 0, 0, 0, 0x3C, 0, 4, 192, 168, 4, 1]) 7]"
proof -
  have h: "(12 :: nat) \<le> length [0x12, 0x34, 1, 0, 0, 1, 0, 0, 0, 0, 0, 0, 1, 97, 0, 0, 1, 0, 1 :: byte]"
    by simp
  show ?thesis
    using h dns_reply_layout [OF h, of "[192, 168, 4, 1]" "7 :: nat"]
    by (simp add: dns_packet_eq)
qed

text \<open>
  Claim C8. For a datagram of fewer than 12 bytes, the empty one included, the turn makes
  no call of \<^verbatim>\<open>sendto\<close>: it sleeps one millisecond and goes on to the next turn. No
  statement of that path can raise, so the turn always has this result.
\<close>

theorem dns_short_datagram_dropped:
  assumes "length data < 12"
  shows "dns_turn ipb (Received data cli) send_raises = [SleepMs 1]"
  using assms by (simp add: dns_turn_def)

theorem dns_short_datagram_dropped_witness:
  "length [0x12, 0x34, 1, 0, 0, 1 :: byte] < 12
   \<and> dns_turn [192, 168, 4, 1] (Received [0x12, 0x34, 1, 0, 0, 1] (7 :: nat)) False = [SleepMs 1]
   \<and> dns_turn [192, 168, 4, 1] (Received [] (7 :: nat)) True = [SleepMs 1]"
proof -
  have h: "length [0x12, 0x34, 1, 0, 0, 1 :: byte] < 12" by simp
  have e: "length ([] :: byte list) < 12" by simp
  show ?thesis
    using h dns_short_datagram_dropped [OF h, of "[192, 168, 4, 1]" "7 :: nat" False]
      dns_short_datagram_dropped [OF e, of "[192, 168, 4, 1]" "7 :: nat" True]
    by simp
qed

section \<open>Properties of the HTTP server\<close>

lemma split_lines_nonempty: "[] \<notin> set (split_lines cur s)"
  by (induction s arbitrary: cur) auto

lemma read_headers_decoded:
  assumes "eof \<or> crlf \<in> set lines"
    and "\<forall>h\<in>set (takeWhile (\<lambda>h. h \<noteq> crlf) lines).
           h \<noteq> [] \<and> (eof \<or> ends_line h) \<and> decode lib h \<noteq> None"
  shows "\<exists>r. read_headers lib eof cl host lines = Some (Inr r)"
  using assms
proof (induction lines arbitrary: cl host)
  case Nil
  then show ?case by simp
next
  case (Cons h rest)
  show ?case
  proof (cases "h = crlf")
    case True
    then show ?thesis by (simp add: ends_line_def crlf_def)
  next
    case False
    then have h: "h \<noteq> []" "eof \<or> ends_line h" "decode lib h \<noteq> None"
      using Cons.prems(2) by simp_all
    then obtain d where d: "decode lib h = Some d" by blast
    have 1: "eof \<or> crlf \<in> set rest" using Cons.prems(1) False by auto
    have 2: "\<forall>h\<in>set (takeWhile (\<lambda>h. h \<noteq> crlf) rest).
               h \<noteq> [] \<and> (eof \<or> ends_line h) \<and> decode lib h \<noteq> None"
      using Cons.prems(2) False by simp
    from Cons.IH [OF 1 2] show ?thesis
      using False h d by (auto simp add: Let_def)
  qed
qed




















end
